theory Spec2Isabelle
  imports Main
begin

section \<open>NDVI tile preprocessing: the notebook's functions as HOL functions\<close>

text \<open>
  The development follows the code cell of \<^verbatim>\<open>NDVI.ipynb\<close>. Python strings are modelled
  as \<^typ>\<open>string\<close>, so their characters are the code points below 256; among these
  \<^verbatim>\<open>\d\<close> matches the ten ASCII digits and nothing else. The interpreter is the one the
  notebook names (CPython 3.13) with its default settings. The raster library is outside
  the notebook: what it reads, merges and can create is a parameter of the functions that
  call it.
\<close>

subsection \<open>Exceptions\<close>

text \<open>
  The exceptions that can leave the functions: the two built-in ones with their messages,
  an index out of range, a failure of the raster library to open or create a file (with
  the path), and a failure of its merge.
\<close>

datatype py_error =
  ValueError string | TypeError string | IndexError | RasterioIOError string | MergeError

subsection \<open>Digits, decimal conversion and formatting\<close>

definition is_digit :: "char \<Rightarrow> bool" where
  "is_digit c = (c \<in> set ''0123456789'')"

definition digit_value :: "char \<Rightarrow> int" where
  "digit_value c = int (of_char c) - 48"

text \<open>The number a string of decimal digits denotes.\<close>

definition decimal_value :: "string \<Rightarrow> int" where
  "decimal_value ds = foldl (\<lambda>acc c. 10 * acc + digit_value c) 0 ds"

definition digit_char :: "nat \<Rightarrow> char" where
  "digit_char d = ''0123456789'' ! d"

fun dec_nat :: "nat \<Rightarrow> string" where
  "dec_nat n = (if n < 10 then [digit_char n] else dec_nat (n div 10) @ [digit_char (n mod 10)])"

declare dec_nat.simps [simp del]

text \<open>\<^verbatim>\<open>str(i)\<close>, which is also what \<^verbatim>\<open>f"{i}"\<close> prints for an integer.\<close>

definition py_str :: "int \<Rightarrow> string" where
  "py_str i = (if i < 0 then ''-'' @ dec_nat (nat (- i)) else dec_nat (nat i))"

text \<open>\<^verbatim>\<open>s.zfill(w)\<close> on a string of digits: zeros on the left up to width \<open>w\<close>.\<close>

definition zfill :: "nat \<Rightarrow> string \<Rightarrow> string" where
  "zfill w s = replicate (w - length s) (CHR ''0'') @ s"

text \<open>
  The format specification \<^verbatim>\<open>{doy:03d}\<close>: minimum width three, padded with zeros, the
  sign (if any) counted in the width and written before the zeros.
\<close>

definition format_03d :: "int \<Rightarrow> string" where
  "format_03d i =
     (if i < 0 then ''-'' @ zfill 2 (dec_nat (nat (- i))) else zfill 3 (dec_nat (nat i)))"

text \<open>
  \<^verbatim>\<open>int(s)\<close> on a non-empty string of decimal digits, as the two parsers call it on a
  regular-expression group. The interpreter refuses a string of more than
  \<^verbatim>\<open>sys.get_int_max_str_digits()\<close> digits, 4300 by default, leading zeros counted, with a
  \<^verbatim>\<open>ValueError\<close>; the notebook does not change the setting.
\<close>

definition int_max_str_digits :: nat where
  "int_max_str_digits = 4300"

definition int_limit_message :: "nat \<Rightarrow> string" where
  "int_limit_message n =
     ''Exceeds the limit ('' @ py_str (int int_max_str_digits) @
     '' digits) for integer string conversion: value has '' @ py_str (int n) @
     '' digits; use sys.set_int_max_str_digits() to increase the limit''"

definition py_int :: "string \<Rightarrow> py_error + int" where
  "py_int ds =
     (if int_max_str_digits < length ds then Inl (ValueError (int_limit_message (length ds)))
      else Inr (decimal_value ds))"

subsection \<open>The two regular-expression searches\<close>

text \<open>
  \<^verbatim>\<open>re.search\<close> tries the pattern at every start position from the left, the position
  after the last character included, and returns the first match. The argument \<open>m\<close> is
  the pattern anchored at the start of the rest of the string; it returns group 1.
\<close>

fun re_search :: "(string \<Rightarrow> 'a option) \<Rightarrow> string \<Rightarrow> 'a option" where
  "re_search m [] = m []"
| "re_search m (c # cs) = (case m (c # cs) of Some g \<Rightarrow> Some g | None \<Rightarrow> re_search m cs)"

definition doy_marker :: string where
  "doy_marker = ''Syn_VI_fitted''"

text \<open>
  The pattern \<^verbatim>\<open>Syn_VI_fitted(\d+)\<close> anchored: the literal marker, then the longest run
  of digits, which must not be empty. Nothing follows \<^verbatim>\<open>\d+\<close> in the pattern, so the
  greedy run is the group.
\<close>

definition match_doy_at :: "string \<Rightarrow> string option" where
  "match_doy_at s =
     (if take (length doy_marker) s = doy_marker
      then (let ds = takeWhile is_digit (drop (length doy_marker) s)
            in if ds = [] then None else Some ds)
      else None)"

text \<open>
  A band description as the raster library hands it out: a string, or \<^verbatim>\<open>None\<close> for a
  band that has none. \<^verbatim>\<open>re.search\<close> raises a \<^verbatim>\<open>TypeError\<close> on \<^verbatim>\<open>None\<close>.
\<close>

definition re_type_error :: py_error where
  "re_type_error =
     TypeError (''expected string or bytes-like object, got '' @
                [CHR 0x27] @ ''NoneType'' @ [CHR 0x27])"

definition extract_doy_from_band_name :: "string option \<Rightarrow> py_error + int option" where
  "extract_doy_from_band_name band_name =
     (case band_name of
        None \<Rightarrow> Inl re_type_error
      | Some s \<Rightarrow>
          (case re_search match_doy_at s of
             Some g \<Rightarrow> (case py_int g of Inl e \<Rightarrow> Inl e | Inr v \<Rightarrow> Inr (Some v))
           | None \<Rightarrow> Inr None))"

text \<open>The character class \<^verbatim>\<open>[\.\-_]\<close> at the head of the rest of the string.\<close>

definition starts_with_sep :: "string \<Rightarrow> bool" where
  "starts_with_sep s = (case s of [] \<Rightarrow> False | c # _ \<Rightarrow> c \<in> set ''.-_'')"

text \<open>
  The anchor \<^verbatim>\<open>$\<close> without the MULTILINE flag: it holds at the end of the string and
  also just before a line feed that is the last character of the string.
\<close>

definition at_dollar :: "string \<Rightarrow> bool" where
  "at_dollar s = (s = [] \<or> s = [CHR 0x0A])"

text \<open>The pattern \<^verbatim>\<open>_(\d{4})(?:[\.\-_]|$)\<close> anchored.\<close>

definition match_year_at :: "string \<Rightarrow> string option" where
  "match_year_at s =
     (if take 1 s = ''_''
      then (let ds = take 4 (drop 1 s); rest = drop 5 s
            in if length ds = 4 \<and> list_all is_digit ds \<and> (starts_with_sep rest \<or> at_dollar rest)
               then Some ds else None)
      else None)"

definition extract_year_from_filename :: "string \<Rightarrow> py_error + int option" where
  "extract_year_from_filename filename =
     (case re_search match_year_at filename of
        Some g \<Rightarrow> (case py_int g of Inl e \<Rightarrow> Inl e | Inr v \<Rightarrow> Inr (Some v))
      | None \<Rightarrow> Inr None)"

subsection \<open>Values, arrays, files and the state the functions act on\<close>

text \<open>
  The values that occur in a raster profile (the \<^verbatim>\<open>meta\<close> dictionary): strings, integers,
  and objects of the raster library that the notebook only passes on (the affine transform,
  the nodata value), kept opaque.
\<close>

datatype pyval = PStr string | PInt int | PObj nat

type_synonym pydict = "string \<rightharpoonup> pyval"

text \<open>
  An array of three dimensions (band, row, column) with its shape and its elements in
  row-major order, and the two-dimensional array that \<^verbatim>\<open>mosaic[band_idx, :, :]\<close> selects.
\<close>

record 'a ndarray3 =
  shape0 :: nat
  shape1 :: nat
  shape2 :: nat
  elems :: "'a list"

record 'a ndarray2 =
  rows :: nat
  cols :: nat
  cells :: "'a list"

definition band_slice :: "'a ndarray3 \<Rightarrow> nat \<Rightarrow> 'a ndarray2" where
  "band_slice mosaic band_idx =
     \<lparr>rows = shape1 mosaic, cols = shape2 mosaic,
      cells = take (shape1 mosaic * shape2 mosaic)
                (drop (band_idx * (shape1 mosaic * shape2 mosaic)) (elems mosaic))\<rparr>"

text \<open>
  An input tile as the raster library reads it: the description of every band (a string,
  or \<^verbatim>\<open>None\<close> where the band has none), profile, pixels.
\<close>

record 'a tile =
  descriptions :: "string option list"
  meta :: pydict
  pixels :: "'a ndarray3"

text \<open>An output file: the keyword arguments it was created with and the band written to it.\<close>

record 'a raster_file =
  profile :: pydict
  band1 :: "'a ndarray2"

text \<open>
  What lies outside the notebook: which paths the raster library can open for reading and
  what it finds there, what its \<^verbatim>\<open>merge\<close> returns for a list of open tiles (\<open>None\<close> when
  it raises), and which paths it can create for writing.
\<close>

record 'a env =
  tile_at :: "string \<Rightarrow> 'a tile option"
  merge_result :: "'a tile list \<Rightarrow> ('a ndarray3 \<times> pyval) option"
  creatable :: "string \<Rightarrow> bool"

text \<open>
  The state: the dictionaries on the heap by address with the next free address, the files
  written so far (oldest first), the handles of datasets open for reading with the next
  fresh handle, and the lines printed.
\<close>

record 'a world =
  dicts :: "nat \<Rightarrow> pydict"
  dict_lim :: nat
  written :: "(string \<times> 'a raster_file) list"
  open_handles :: "nat list"
  handle_lim :: nat
  stdout :: "string list"

subsection \<open>Writing the bands\<close>

definition DEFAULT_CRS :: string where
  "DEFAULT_CRS = ''EPSG:4326''"

text \<open>\<^verbatim>\<open>os.path.join\<close> of two components on a POSIX system.\<close>

definition os_path_join :: "string \<Rightarrow> string \<Rightarrow> string" where
  "os_path_join a p =
     (if take 1 p = ''/'' then p
      else if a = [] \<or> last a = CHR ''/'' then a @ p
      else a @ ''/'' @ p)"

definition band_file_name :: "string \<Rightarrow> int \<Rightarrow> int \<Rightarrow> string" where
  "band_file_name region_name year doy =
     ''NDVI_'' @ region_name @ ''_'' @ py_str year @ ''_'' @ format_03d doy @ ''.tif''"

text \<open>The two lines the loop prints: for a band it skips and for a band it has saved.\<close>

definition skipped_line :: "nat \<Rightarrow> string option \<Rightarrow> string" where
  "skipped_line band_idx band_description =
     ''DOY value could not be extracted from band '' @ py_str (int band_idx + 1) @
     ''. '' @ (case band_description of None \<Rightarrow> ''None'' | Some s \<Rightarrow> s)"

definition saved_line :: "string \<Rightarrow> string" where
  "saved_line output_file = ''Saved: '' @ output_file"

text \<open>The \<^verbatim>\<open>out_meta.update({...})\<close> of the loop body.\<close>

definition update_band_meta :: "'a ndarray2 \<Rightarrow> string \<Rightarrow> pydict \<Rightarrow> pydict" where
  "update_band_meta band_data crs m =
     m(''driver'' \<mapsto> PStr ''GTiff'',
       ''height'' \<mapsto> PInt (int (rows band_data)),
       ''width'' \<mapsto> PInt (int (cols band_data)),
       ''count'' \<mapsto> PInt 1,
       ''dtype'' \<mapsto> PStr ''int16'',
       ''crs'' \<mapsto> PStr crs)"

text \<open>
  The loop of \<^verbatim>\<open>process_and_save_bands\<close> over the band indices still to visit.
  \<open>out_meta\<close> is the address of the caller's dictionary. Indexing
  \<^verbatim>\<open>band_descriptions\<close> beyond its length raises; the parser raises on a description
  that is \<^verbatim>\<open>None\<close> and on a digit run beyond the interpreter's limit; a failure to
  create the output file raises after the dictionary has been updated. Each of them leaves
  the loop at once, with the files written so far in place.
\<close>

fun bands_loop ::
  "'a env \<Rightarrow> 'a ndarray3 \<Rightarrow> nat \<Rightarrow> string option list \<Rightarrow> string \<Rightarrow> int \<Rightarrow> string \<Rightarrow>
   string \<Rightarrow> nat list \<Rightarrow> 'a world \<Rightarrow> (py_error + unit) \<times> 'a world" where
  "bands_loop env mosaic out_meta band_descriptions output_dir year region_name crs [] st =
     (Inr (), st)"
| "bands_loop env mosaic out_meta band_descriptions output_dir year region_name crs
     (band_idx # rest) st =
     (if length band_descriptions \<le> band_idx then (Inl IndexError, st)
      else
        let band_description = band_descriptions ! band_idx in
        case extract_doy_from_band_name band_description of
          Inl e \<Rightarrow> (Inl e, st)
        | Inr None \<Rightarrow>
            bands_loop env mosaic out_meta band_descriptions output_dir year region_name crs rest
              (st\<lparr>stdout := stdout st @ [skipped_line band_idx band_description]\<rparr>)
        | Inr (Some doy) \<Rightarrow>
            let file_name = band_file_name region_name year doy;
                output_file = os_path_join output_dir file_name;
                band_data = band_slice mosaic band_idx;
                st1 = st\<lparr>dicts := (dicts st)
                        (out_meta := update_band_meta band_data crs (dicts st out_meta))\<rparr>
            in if \<not> creatable env output_file then (Inl (RasterioIOError output_file), st1)
               else
                 bands_loop env mosaic out_meta band_descriptions output_dir year region_name crs
                   rest
                   (st1\<lparr>written := written st1 @
                          [(output_file, \<lparr>profile = dicts st1 out_meta, band1 = band_data\<rparr>)],
                        stdout := stdout st1 @ [saved_line output_file]\<rparr>))"

definition process_and_save_bands ::
  "'a env \<Rightarrow> 'a ndarray3 \<Rightarrow> nat \<Rightarrow> string option list \<Rightarrow> string \<Rightarrow> int \<Rightarrow> string \<Rightarrow>
   string \<Rightarrow> 'a world \<Rightarrow> (py_error + unit) \<times> 'a world" where
  "process_and_save_bands env mosaic out_meta band_descriptions output_dir year region_name crs st =
     bands_loop env mosaic out_meta band_descriptions output_dir year region_name crs
       [0..<shape0 mosaic] st"

subsection \<open>Merging the tiles of one region and year\<close>

text \<open>
  The first loop of \<^verbatim>\<open>merge_tiff_files\<close>: every path is opened in turn and its fresh
  handle appended to \<^verbatim>\<open>src_files_to_mosaic\<close>; the band descriptions are taken from a
  tile only while none have been taken. A path that cannot be opened raises, and the
  handles opened before it stay as they are.
\<close>

fun open_loop ::
  "'a env \<Rightarrow> string list \<Rightarrow> (nat \<times> 'a tile) list \<Rightarrow> string option list option \<Rightarrow>
   'a world \<Rightarrow>
   (py_error + (nat \<times> 'a tile) list \<times> string option list option) \<times> 'a world" where
  "open_loop env [] src_files_to_mosaic band_descriptions st =
     (Inr (src_files_to_mosaic, band_descriptions), st)"
| "open_loop env (tif_file # rest) src_files_to_mosaic band_descriptions st =
     (case tile_at env tif_file of
        None \<Rightarrow> (Inl (RasterioIOError tif_file), st)
      | Some t \<Rightarrow>
          let src = handle_lim st;
              st1 = st\<lparr>open_handles := open_handles st @ [src],
                       handle_lim := Suc (handle_lim st)\<rparr>
          in open_loop env rest (src_files_to_mosaic @ [(src, t)])
               (if band_descriptions = None then Some (descriptions t) else band_descriptions)
               st1)"

text \<open>The last loop: \<^verbatim>\<open>src.close()\<close> on every handle of the list.\<close>

fun close_loop :: "nat list \<Rightarrow> 'a world \<Rightarrow> 'a world" where
  "close_loop [] st = st"
| "close_loop (src # rest) st =
     close_loop rest (st\<lparr>open_handles := removeAll src (open_handles st)\<rparr>)"

text \<open>
  \<^verbatim>\<open>merge_tiff_files\<close>. The result on success is the mosaic, the address of the fresh
  profile dictionary (a copy of the first tile's profile with the merged transform), and
  the band descriptions. Nothing is caught: an exception from opening or merging leaves the
  function at once, with the state as it is at that moment.
\<close>

definition merge_tiff_files ::
  "'a env \<Rightarrow> string list \<Rightarrow> 'a world \<Rightarrow>
   (py_error + 'a ndarray3 \<times> nat \<times> string option list option) \<times> 'a world" where
  "merge_tiff_files env tiff_files st =
     (if length tiff_files = 0 then (Inl (ValueError ''No TIFF files to merge.''), st)
      else
        case open_loop env tiff_files [] None st of
          (Inl e, st1) \<Rightarrow> (Inl e, st1)
        | (Inr (src_files_to_mosaic, band_descriptions), st1) \<Rightarrow>
            (case merge_result env (map snd src_files_to_mosaic) of
               None \<Rightarrow> (Inl MergeError, st1)
             | Some (mosaic, out_trans) \<Rightarrow>
                 (case src_files_to_mosaic of
                    [] \<Rightarrow> (Inl IndexError, st1)
                  | (src0, t0) # _ \<Rightarrow>
                      let out_meta = dict_lim st1;
                          st2 = st1\<lparr>dicts := (dicts st1)
                                   (out_meta := (meta t0)(''transform'' \<mapsto> out_trans)),
                                 dict_lim := Suc (dict_lim st1)\<rparr>;
                          st3 = close_loop (map fst src_files_to_mosaic) st2
                      in (Inr (mosaic, out_meta, band_descriptions), st3))))"

subsection \<open>Grouping the files of a region by year\<close>

text \<open>\<^verbatim>\<open>s.endswith(suffix)\<close>.\<close>

definition endswith :: "string \<Rightarrow> string \<Rightarrow> bool" where
  "endswith s suffix =
     (length suffix \<le> length s \<and> drop (length s - length suffix) s = suffix)"

text \<open>
  \<^verbatim>\<open>d.setdefault(k, []).append(v)\<close> on a dictionary kept as a list of entries in
  insertion order: the value is appended to the list of an existing key, a new key is
  added at the end.
\<close>

fun setdefault_append :: "(int \<times> string list) list \<Rightarrow> int \<Rightarrow> string \<Rightarrow> (int \<times> string list) list" where
  "setdefault_append [] k v = [(k, [v])]"
| "setdefault_append ((k', vs) # d) k v =
     (if k' = k then (k', vs @ [v]) # d else (k', vs) # setdefault_append d k v)"

text \<open>
  The grouping loop of \<^verbatim>\<open>process_region\<close> over the directory listing. The test
  \<^verbatim>\<open>if year:\<close> is on the truth value of the parser's result: \<^verbatim>\<open>None\<close> is false, and so
  is the integer zero. An exception of the parser would leave the loop.
\<close>

fun group_loop ::
  "string \<Rightarrow> string list \<Rightarrow> (int \<times> string list) list \<Rightarrow>
   py_error + (int \<times> string list) list" where
  "group_loop region_path [] tiff_files_by_year = Inr tiff_files_by_year"
| "group_loop region_path (filename # rest) tiff_files_by_year =
     (if endswith filename ''.tif''
      then (case extract_year_from_filename filename of
              Inl e \<Rightarrow> Inl e
            | Inr None \<Rightarrow> group_loop region_path rest tiff_files_by_year
            | Inr (Some year) \<Rightarrow>
                if year \<noteq> 0
                then group_loop region_path rest
                       (setdefault_append tiff_files_by_year year
                          (os_path_join region_path filename))
                else group_loop region_path rest tiff_files_by_year)
      else group_loop region_path rest tiff_files_by_year)"

text \<open>The loop started from the empty dictionary \<^verbatim>\<open>tiff_files_by_year = {}\<close>.\<close>

definition group_tiff_files_by_year ::
  "string \<Rightarrow> string list \<Rightarrow> py_error + (int \<times> string list) list" where
  "group_tiff_files_by_year region_path listing = group_loop region_path listing []"

text \<open>\<^verbatim>\<open>d.get(k, [])\<close> on such a dictionary: the files grouped under a year.\<close>

definition files_of_year :: "(int \<times> string list) list \<Rightarrow> int \<Rightarrow> string list" where
  "files_of_year d k = (case map_of d k of None \<Rightarrow> [] | Some vs \<Rightarrow> vs)"

subsection \<open>What the specification says about band labels and file names\<close>

definition starts_with_digit :: "string \<Rightarrow> bool" where
  "starts_with_digit s = (case s of [] \<Rightarrow> False | c # _ \<Rightarrow> is_digit c)"

text \<open>The marker stands at position \<open>i\<close> of \<open>s\<close> and a digit follows it.\<close>

definition doy_marker_at :: "string \<Rightarrow> nat \<Rightarrow> bool" where
  "doy_marker_at s i =
     (take 13 (drop i s) = ''Syn_VI_fitted'' \<and> starts_with_digit (drop (i + 13) s))"

text \<open>The marker stands at position \<open>i\<close> of \<open>s\<close> and \<open>ds\<close> is the whole run of digits after it.\<close>

definition doy_occurs_at :: "string \<Rightarrow> nat \<Rightarrow> string \<Rightarrow> bool" where
  "doy_occurs_at s i ds =
     (ds \<noteq> [] \<and> list_all is_digit ds \<and>
      take (13 + length ds) (drop i s) = ''Syn_VI_fitted'' @ ds \<and>
      \<not> starts_with_digit (drop (i + 13 + length ds) s))"

definition contains_doy_marker :: "string \<Rightarrow> bool" where
  "contains_doy_marker s = list_ex (doy_marker_at s) [0..<Suc (length s)]"

text \<open>
  At position \<open>i\<close> of \<open>s\<close> stands an underscore, then the four digits \<open>ds\<close>, then one of
  the separators \<^verbatim>\<open>.\<close>, \<^verbatim>\<open>-\<close>, \<^verbatim>\<open>_\<close> or the end of the string.
\<close>

definition year_occurs_at :: "string \<Rightarrow> nat \<Rightarrow> string \<Rightarrow> bool" where
  "year_occurs_at s i ds =
     (length ds = 4 \<and> list_all is_digit ds \<and> take 5 (drop i s) = CHR ''_'' # ds \<and>
      (drop (i + 5) s = [] \<or> starts_with_sep (drop (i + 5) s)))"

definition year_run_at :: "string \<Rightarrow> nat \<Rightarrow> bool" where
  "year_run_at s i = year_occurs_at s i (take 4 (drop (Suc i) s))"

definition contains_year_run :: "string \<Rightarrow> bool" where
  "contains_year_run s = list_ex (year_run_at s) [0..<Suc (length s)]"

text \<open>The same, with the third way the pattern ends: a single line feed that ends the string.\<close>

definition year_occurs_at_nl :: "string \<Rightarrow> nat \<Rightarrow> string \<Rightarrow> bool" where
  "year_occurs_at_nl s i ds =
     (length ds = 4 \<and> list_all is_digit ds \<and> take 5 (drop i s) = CHR ''_'' # ds \<and>
      (drop (i + 5) s = [] \<or> drop (i + 5) s = [CHR 0x0A] \<or> starts_with_sep (drop (i + 5) s)))"

definition year_run_at_nl :: "string \<Rightarrow> nat \<Rightarrow> bool" where
  "year_run_at_nl s i = year_occurs_at_nl s i (take 4 (drop (Suc i) s))"

definition contains_year_run_nl :: "string \<Rightarrow> bool" where
  "contains_year_run_nl s = list_ex (year_run_at_nl s) [0..<Suc (length s)]"

subsection \<open>The effects of a run of the band loop, written out\<close>

text \<open>
  The profile every band file of a mosaic is created with: the incoming dictionary with
  the six keys overridden, height and width being those of a band of the mosaic.
\<close>

definition final_meta :: "'a ndarray3 \<Rightarrow> string \<Rightarrow> pydict \<Rightarrow> pydict" where
  "final_meta mosaic crs m =
     m(''driver'' \<mapsto> PStr ''GTiff'',
       ''height'' \<mapsto> PInt (int (shape1 mosaic)),
       ''width'' \<mapsto> PInt (int (shape2 mosaic)),
       ''count'' \<mapsto> PInt 1,
       ''dtype'' \<mapsto> PStr ''int16'',
       ''crs'' \<mapsto> PStr crs)"

text \<open>The files the bands at the indices \<open>idxs\<close> give rise to, in order, one per parsed label.\<close>

definition band_writes ::
  "'a ndarray3 \<Rightarrow> pydict \<Rightarrow> string option list \<Rightarrow> string \<Rightarrow> int \<Rightarrow> string \<Rightarrow> nat list \<Rightarrow>
   (string \<times> 'a raster_file) list" where
  "band_writes mosaic prof band_descriptions output_dir year region_name idxs =
     concat (map (\<lambda>i. case extract_doy_from_band_name (band_descriptions ! i) of
                         Inl e \<Rightarrow> []
                       | Inr None \<Rightarrow> []
                       | Inr (Some doy) \<Rightarrow>
                           [(os_path_join output_dir (band_file_name region_name year doy),
                             \<lparr>profile = prof, band1 = band_slice mosaic i\<rparr>)]) idxs)"

text \<open>The lines printed for the bands at the indices \<open>idxs\<close>, one per band parsed or skipped.\<close>

definition band_lines ::
  "string option list \<Rightarrow> string \<Rightarrow> int \<Rightarrow> string \<Rightarrow> nat list \<Rightarrow> string list" where
  "band_lines band_descriptions output_dir year region_name idxs =
     concat (map (\<lambda>i. case extract_doy_from_band_name (band_descriptions ! i) of
                         Inl e \<Rightarrow> []
                       | Inr None \<Rightarrow> [skipped_line i (band_descriptions ! i)]
                       | Inr (Some doy) \<Rightarrow>
                           [saved_line (os_path_join output_dir
                                          (band_file_name region_name year doy))]) idxs)"

text \<open>
  Nothing stops the loop at the indices \<open>idxs\<close>: every index is within the labels, the
  parser raises on none of them, and every file a parsed label names can be created.
\<close>

definition bands_writable ::
  "'a env \<Rightarrow> string option list \<Rightarrow> string \<Rightarrow> int \<Rightarrow> string \<Rightarrow> nat list \<Rightarrow> bool" where
  "bands_writable env band_descriptions output_dir year region_name idxs =
     list_all (\<lambda>i. i < length band_descriptions \<and>
                  (case extract_doy_from_band_name (band_descriptions ! i) of
                     Inl e \<Rightarrow> False
                   | Inr None \<Rightarrow> True
                   | Inr (Some doy) \<Rightarrow>
                       creatable env (os_path_join output_dir (band_file_name region_name year doy))))
       idxs"

subsection \<open>A small world to run the functions in\<close>

definition example_mosaic :: "int ndarray3" where
  "example_mosaic = \<lparr>shape0 = 2, shape1 = 1, shape2 = 2, elems = [11, 12, 21, 22]\<rparr>"

definition example_tile :: "string option list \<Rightarrow> int tile" where
  "example_tile ds =
     \<lparr>descriptions = ds, meta = [''nodata'' \<mapsto> PObj 0, ''count'' \<mapsto> PInt 2],
      pixels = example_mosaic\<rparr>"

text \<open>
  Two tiles exist, with different band descriptions, and no other path can be opened;
  merging fails on a single tile and succeeds otherwise; every output path is creatable.
\<close>

definition example_env :: "int env" where
  "example_env =
     \<lparr>tile_at = (\<lambda>p. if p = ''a_2020.tif''
                     then Some (example_tile [Some ''Syn_VI_fitted001'', Some ''Syn_VI_fitted045''])
                     else if p = ''b_2020.tif'' then Some (example_tile [Some ''other1'', None])
                     else None),
      merge_result = (\<lambda>ts. if length ts = 1 then None else Some (example_mosaic, PObj 7)),
      creatable = (\<lambda>p. True)\<rparr>"

definition example_world :: "int world" where
  "example_world =
     \<lparr>dicts = (\<lambda>a. Map.empty), dict_lim = 1, written = [], open_handles = [], handle_lim = 0,
      stdout = []\<rparr>"


section \<open>Properties\<close>

subsection \<open>The search over start positions\<close>

lemma re_search_None: "re_search m s = None \<longleftrightarrow> (\<forall>i. m (drop i s) = None)"
proof (induction s)
  case Nil
  then show ?case by simp
next
  case (Cons c cs)
  have "(\<forall>i. m (drop i (c # cs)) = None) \<longleftrightarrow> m (c # cs) = None \<and> (\<forall>i. m (drop i cs) = None)"
  proof
    assume a: "\<forall>i. m (drop i (c # cs)) = None"
    have "m (drop 0 (c # cs)) = None" using a by blast
    moreover have "m (drop i cs) = None" for i using a [rule_format, of "Suc i"] by simp
    ultimately show "m (c # cs) = None \<and> (\<forall>i. m (drop i cs) = None)" by simp
  next
    assume a: "m (c # cs) = None \<and> (\<forall>i. m (drop i cs) = None)"
    show "\<forall>i. m (drop i (c # cs)) = None"
    proof
      fix i show "m (drop i (c # cs)) = None" using a by (cases i) simp_all
    qed
  qed
  with Cons show ?case by (simp split: option.splits)
qed

lemma re_search_first:
  "m (drop i s) = Some g \<Longrightarrow> (\<forall>j<i. m (drop j s) = None) \<Longrightarrow> re_search m s = Some g"
proof (induction s arbitrary: i)
  case Nil
  then show ?case by simp
next
  case (Cons c cs)
  show ?case
  proof (cases i)
    case 0
    with Cons.prems show ?thesis by simp
  next
    case (Suc k)
    have h0: "m (c # cs) = None" using Cons.prems(2) [rule_format, of 0] Suc by simp
    have hk: "m (drop k cs) = Some g" using Cons.prems(1) Suc by simp
    have hj: "\<forall>j<k. m (drop j cs) = None"
    proof (intro allI impI)
      fix j assume "j < k"
      then have "Suc j < i" using Suc by simp
      from Cons.prems(2) [rule_format, OF this] show "m (drop j cs) = None" by simp
    qed
    from Cons.IH [OF hk hj] h0 show ?thesis by simp
  qed
qed

subsection \<open>Decimal digits\<close>









lemma py_int_within_limit: "length ds \<le> 4300 \<Longrightarrow> py_int ds = Inr (decimal_value ds)"
  by (simp add: py_int_def int_max_str_digits_def)

lemma py_int_beyond_limit:
  "4300 < length ds \<Longrightarrow> py_int ds = Inl (ValueError (int_limit_message (length ds)))"
  by (simp add: py_int_def int_max_str_digits_def)

subsection \<open>Day of year from a band label\<close>

lemma takeWhile_run:
  "list_all P ds \<Longrightarrow> (case r of [] \<Rightarrow> True | c # _ \<Rightarrow> \<not> P c) \<Longrightarrow> takeWhile P (ds @ r) = ds"
  by (induction ds) (auto split: list.splits)

lemma starts_with_digit_iff: "starts_with_digit xs \<longleftrightarrow> takeWhile is_digit xs \<noteq> []"
  by (cases xs) (simp_all add: starts_with_digit_def)

lemma match_doy_at_unfold:
  "match_doy_at t =
     (if take 13 t = ''Syn_VI_fitted''
      then (if takeWhile is_digit (drop 13 t) = [] then None
            else Some (takeWhile is_digit (drop 13 t)))
      else None)"
proof -
  have len: "length ''Syn_VI_fitted'' = 13" by simp
  show ?thesis by (simp only: match_doy_at_def Let_def doy_marker_def len)
qed

lemma doy_occurs_match:
  assumes "doy_occurs_at s i ds"
  shows "match_doy_at (drop i s) = Some ds"
proof -
  let ?t = "drop i s"
  from assms have ne: "ds \<noteq> []" and dg: "list_all is_digit ds"
    and tk: "take (13 + length ds) ?t = ''Syn_VI_fitted'' @ ds"
    and nd: "\<not> starts_with_digit (drop (i + 13 + length ds) s)"
    by (simp_all add: doy_occurs_at_def)
  define r where "r = drop (13 + length ds) ?t"
  have t: "?t = ''Syn_VI_fitted'' @ ds @ r"
    using append_take_drop_id [of "13 + length ds" ?t] tk r_def by simp
  have r': "r = drop (i + 13 + length ds) s" by (simp add: r_def add.commute add.left_commute)
  have "takeWhile is_digit (ds @ r) = ds"
    using dg nd r' by (intro takeWhile_run) (auto simp: starts_with_digit_def split: list.splits)
  then show ?thesis using ne by (simp add: match_doy_at_unfold t)
qed

lemma doy_marker_match: "doy_marker_at s i \<longleftrightarrow> match_doy_at (drop i s) \<noteq> None"
proof -
  have d: "drop (i + 13) s = drop 13 (drop i s)" by (simp add: add.commute)
  show ?thesis
    unfolding doy_marker_at_def match_doy_at_unfold d starts_with_digit_iff
    by (simp del: drop_drop)
qed

lemma doy_marker_at_bound: "doy_marker_at s i \<Longrightarrow> i < Suc (length s)"
  by (cases "i \<le> length s") (auto simp: doy_marker_at_def)

lemma contains_doy_marker_iff: "contains_doy_marker s \<longleftrightarrow> (\<exists>i. doy_marker_at s i)"
proof
  assume "contains_doy_marker s"
  then show "\<exists>i. doy_marker_at s i"
    unfolding contains_doy_marker_def list_ex_iff by blast
next
  assume "\<exists>i. doy_marker_at s i"
  then obtain i where i: "doy_marker_at s i" ..
  then have "i \<in> set [0..<Suc (length s)]" using doy_marker_at_bound [OF i] by auto
  with i show "contains_doy_marker s"
    unfolding contains_doy_marker_def list_ex_iff by blast
qed

lemma search_doy_found:
  assumes "doy_occurs_at s i ds" and "\<not> list_ex (doy_marker_at s) [0..<i]"
  shows "re_search match_doy_at s = Some ds"
proof -
  have m: "match_doy_at (drop i s) = Some ds" using assms(1) by (rule doy_occurs_match)
  have "\<forall>j<i. match_doy_at (drop j s) = None"
    using assms(2) by (auto simp: list_ex_iff doy_marker_match)
  from re_search_first [OF m this] show ?thesis .
qed

lemma search_doy_none: "\<not> contains_doy_marker s \<Longrightarrow> re_search match_doy_at s = None"
  by (simp add: contains_doy_marker_iff doy_marker_match re_search_None)

lemma search_doy_some: "contains_doy_marker s \<Longrightarrow> re_search match_doy_at s \<noteq> None"
  by (auto simp: contains_doy_marker_iff doy_marker_match re_search_None)

lemma extract_doy_found:
  assumes "doy_occurs_at s i ds" and "\<not> list_ex (doy_marker_at s) [0..<i]"
    and "length ds \<le> 4300"
  shows "extract_doy_from_band_name (Some s) = Inr (Some (decimal_value ds))"
  using search_doy_found [OF assms(1,2)] py_int_within_limit [OF assms(3)]
  by (simp add: extract_doy_from_band_name_def)

lemma extract_doy_too_long:
  assumes "doy_occurs_at s i ds" and "\<not> list_ex (doy_marker_at s) [0..<i]"
    and "4300 < length ds"
  shows "extract_doy_from_band_name (Some s) = Inl (ValueError (int_limit_message (length ds)))"
  using search_doy_found [OF assms(1,2)] py_int_beyond_limit [OF assms(3)]
  by (simp add: extract_doy_from_band_name_def)

lemma extract_doy_none:
  "\<not> contains_doy_marker s \<Longrightarrow> extract_doy_from_band_name (Some s) = Inr None"
  by (simp add: extract_doy_from_band_name_def search_doy_none)

lemma ones_after_marker:
  assumes "0 < n"
  shows "doy_occurs_at (''Syn_VI_fitted'' @ replicate n (CHR ''1'')) 0 (replicate n (CHR ''1''))"
proof -
  have d: "is_digit (CHR ''1'')" by (simp add: is_digit_def)
  have l: "length (''Syn_VI_fitted'' @ replicate n (CHR ''1'')) = 13 + n" by simp
  have "replicate n (CHR ''1'') \<noteq> []" using assms by simp
  moreover have "list_all is_digit (replicate n (CHR ''1''))" using d by (simp add: list_all_iff)
  moreover have "take (13 + length (replicate n (CHR ''1'')))
      (drop 0 (''Syn_VI_fitted'' @ replicate n (CHR ''1''))) =
      ''Syn_VI_fitted'' @ replicate n (CHR ''1'')"
    using l by (simp del: append.simps length_append)
  moreover have "drop (0 + 13 + length (replicate n (CHR ''1'')))
      (''Syn_VI_fitted'' @ replicate n (CHR ''1'')) = []"
    using l by (simp del: append.simps length_append)
  ultimately show ?thesis unfolding doy_occurs_at_def by (simp add: starts_with_digit_def)
qed

lemma extract_doy_ones_too_long:
  assumes "4300 < n"
  shows "extract_doy_from_band_name (Some (''Syn_VI_fitted'' @ replicate n (CHR ''1''))) =
           Inl (ValueError (int_limit_message n))"
proof -
  have "0 < n" using assms by simp
  from extract_doy_too_long [OF ones_after_marker [OF this]] assms show ?thesis by simp
qed

text \<open>
  Claim C2 as it is written fails on a label whose digit run is longer than the
  interpreter lets \<^verbatim>\<open>int\<close> convert: after the marker stand 4301 digits, and the function
  raises a \<^verbatim>\<open>ValueError\<close> instead of returning the number.
\<close>

theorem extract_doy_long_run_counterexample:
  "doy_occurs_at (''Syn_VI_fitted'' @ replicate 4301 (CHR ''1'')) 0 (replicate 4301 (CHR ''1'')) \<and>
   extract_doy_from_band_name (Some (''Syn_VI_fitted'' @ replicate 4301 (CHR ''1''))) =
     Inl (ValueError (int_limit_message 4301))"
proof (rule conjI)
  show "doy_occurs_at (''Syn_VI_fitted'' @ replicate 4301 (CHR ''1'')) 0
      (replicate 4301 (CHR ''1''))"
    by (rule ones_after_marker) simp
  show "extract_doy_from_band_name (Some (''Syn_VI_fitted'' @ replicate 4301 (CHR ''1''))) =
     Inl (ValueError (int_limit_message 4301))"
    by (rule extract_doy_ones_too_long) simp
qed

text \<open>
  Claim C2, amended. When the marker followed by the whole digit run \<open>ds\<close> stands at
  position \<open>i\<close> of a band label and the marker is followed by a digit at no earlier
  position, the function returns \<open>ds\<close> read as a decimal number if \<open>ds\<close> has at most 4300
  digits, and raises the \<^verbatim>\<open>ValueError\<close> of \<^verbatim>\<open>int\<close> if it has more. A label that has the
  marker followed by a digit somewhere is never answered with \<open>None\<close>, and a label that
  has it nowhere always is, without raising.
\<close>

theorem extract_doy_spec:
  "(doy_occurs_at s i ds \<and> \<not> list_ex (doy_marker_at s) [0..<i] \<and> length ds \<le> 4300
      \<longrightarrow> extract_doy_from_band_name (Some s) = Inr (Some (decimal_value ds))) \<and>
   (doy_occurs_at s i ds \<and> \<not> list_ex (doy_marker_at s) [0..<i] \<and> 4300 < length ds
      \<longrightarrow> extract_doy_from_band_name (Some s) =
            Inl (ValueError (int_limit_message (length ds)))) \<and>
   (contains_doy_marker s \<longrightarrow> extract_doy_from_band_name (Some s) \<noteq> Inr None) \<and>
   (\<not> contains_doy_marker s \<longrightarrow> extract_doy_from_band_name (Some s) = Inr None)"
proof -
  have "extract_doy_from_band_name (Some s) \<noteq> Inr None" if "contains_doy_marker s"
    using search_doy_some [OF that]
    by (auto simp: extract_doy_from_band_name_def split: option.splits sum.splits)
  then show ?thesis
    using extract_doy_found [of s i ds] extract_doy_too_long [of s i ds] extract_doy_none [of s]
    by blast
qed

theorem extract_doy_spec_witness:
  "doy_occurs_at ''b1_Syn_VI_fitted045_x'' 3 ''045'' \<and>
   \<not> list_ex (doy_marker_at ''b1_Syn_VI_fitted045_x'') [0..<3] \<and>
   length ''045'' \<le> 4300 \<and>
   extract_doy_from_band_name (Some ''b1_Syn_VI_fitted045_x'') = Inr (Some 45) \<and>
   contains_doy_marker ''b1_Syn_VI_fitted045_x'' \<and>
   \<not> contains_doy_marker ''NDVI_band_7'' \<and>
   extract_doy_from_band_name (Some ''NDVI_band_7'') = Inr None \<and>
   doy_occurs_at (''Syn_VI_fitted'' @ replicate 4301 (CHR ''1'')) 0 (replicate 4301 (CHR ''1'')) \<and>
   \<not> list_ex (doy_marker_at (''Syn_VI_fitted'' @ replicate 4301 (CHR ''1''))) [0..<0] \<and>
   4300 < length (replicate 4301 (CHR ''1'')) \<and>
   extract_doy_from_band_name (Some (''Syn_VI_fitted'' @ replicate 4301 (CHR ''1''))) =
     Inl (ValueError (int_limit_message (length (replicate 4301 (CHR ''1'')))))"
proof -
  have h1: "doy_occurs_at ''b1_Syn_VI_fitted045_x'' 3 ''045''"
    by (simp add: doy_occurs_at_def is_digit_def starts_with_digit_def)
  have h2: "\<not> list_ex (doy_marker_at ''b1_Syn_VI_fitted045_x'') [0..<3]"
    by code_simp
  have h3: "contains_doy_marker ''b1_Syn_VI_fitted045_x''" by code_simp
  have h4: "\<not> contains_doy_marker ''NDVI_band_7''" by code_simp
  have h5: "length ''045'' \<le> 4300" by simp
  have v: "decimal_value ''045'' = 45" by (simp add: decimal_value_def digit_value_def)
  have k1: "doy_occurs_at (''Syn_VI_fitted'' @ replicate 4301 (CHR ''1'')) 0
      (replicate 4301 (CHR ''1''))"
    by (rule ones_after_marker) simp
  have k2: "\<not> list_ex (doy_marker_at (''Syn_VI_fitted'' @ replicate 4301 (CHR ''1''))) [0..<0]"
    by simp
  have k3: "4300 < length (replicate 4301 (CHR ''1''))"
    by (simp only: length_replicate)
  have a: "extract_doy_from_band_name (Some ''b1_Syn_VI_fitted045_x'') =
      Inr (Some (decimal_value ''045''))"
    using extract_doy_spec [of "''b1_Syn_VI_fitted045_x''" 3 "''045''"] h1 h2 h5 by blast
  have b: "extract_doy_from_band_name (Some ''NDVI_band_7'') = Inr None"
    using extract_doy_spec [of "''NDVI_band_7''" 0 "''0''"] h4 by blast
  have c: "extract_doy_from_band_name (Some (''Syn_VI_fitted'' @ replicate 4301 (CHR ''1''))) =
     Inl (ValueError (int_limit_message (length (replicate 4301 (CHR ''1'')))))"
    using extract_doy_spec [of "''Syn_VI_fitted'' @ replicate 4301 (CHR ''1'')" 0
        "replicate 4301 (CHR ''1'')"] k1 k2 k3 by blast
  from a have a': "extract_doy_from_band_name (Some ''b1_Syn_VI_fitted045_x'') = Inr (Some 45)"
    unfolding v .
  from h1 h2 h5 a' h3 h4 b k1 k2 k3 c show ?thesis by blast
qed

subsection \<open>Year from a file name\<close>

lemma match_year_at_Cons:
  "match_year_at (c # t) =
     (if c = CHR ''_'' \<and> length (take 4 t) = 4 \<and> list_all is_digit (take 4 t) \<and>
         (starts_with_sep (drop 4 t) \<or> at_dollar (drop 4 t))
      then Some (take 4 t) else None)"
  by (simp add: match_year_at_def Let_def)

lemma match_year_at_Nil: "match_year_at [] = None"
  by (simp add: match_year_at_def)

lemma year_occurs_match:
  assumes "year_occurs_at_nl s i ds"
  shows "match_year_at (drop i s) = Some ds"
proof (cases "drop i s")
  case Nil
  with assms show ?thesis by (simp add: year_occurs_at_nl_def)
next
  case (Cons c t)
  have d: "drop (i + 5) s = drop 4 t"
    using Cons drop_drop [of 5 i s] by (simp add: add.commute)
  from assms Cons have "c = CHR ''_''" and "take 4 t = ds" and "length ds = 4"
    and "list_all is_digit ds"
    and "drop 4 t = [] \<or> drop 4 t = [CHR 0x0A] \<or> starts_with_sep (drop 4 t)"
    unfolding year_occurs_at_nl_def d by simp_all
  then show ?thesis unfolding Cons match_year_at_Cons at_dollar_def by auto
qed

lemma if_Some_not_None: "((if P then Some x else None) \<noteq> None) \<longleftrightarrow> P"
  by simp

lemma take_5_Cons: "take 5 (c # t) = c # take 4 t"
  by simp

lemma year_run_match: "year_run_at_nl s i \<longleftrightarrow> match_year_at (drop i s) \<noteq> None"
proof (cases "drop i s")
  case Nil
  then show ?thesis by (simp add: year_run_at_nl_def year_occurs_at_nl_def match_year_at_Nil)
next
  case (Cons c t)
  have d5: "drop (i + 5) s = drop 4 t"
    using Cons drop_drop [of 5 i s] by (simp add: add.commute)
  have "drop (Suc i) s = tl (drop i s)" by (simp only: drop_Suc tl_drop)
  then have d1: "drop (Suc i) s = t" by (simp only: Cons list.sel)
  show ?thesis
    unfolding year_run_at_nl_def year_occurs_at_nl_def d5 d1 Cons match_year_at_Cons
      at_dollar_def take_5_Cons list.inject if_Some_not_None
    by blast
qed

lemma year_run_at_nl_bound: "year_run_at_nl s i \<Longrightarrow> i < Suc (length s)"
  by (cases "i \<le> length s") (auto simp: year_run_at_nl_def year_occurs_at_nl_def)

lemma contains_year_run_nl_iff: "contains_year_run_nl s \<longleftrightarrow> (\<exists>i. year_run_at_nl s i)"
proof
  assume "contains_year_run_nl s"
  then show "\<exists>i. year_run_at_nl s i"
    unfolding contains_year_run_nl_def list_ex_iff by blast
next
  assume "\<exists>i. year_run_at_nl s i"
  then obtain i where i: "year_run_at_nl s i" ..
  then have "i \<in> set [0..<Suc (length s)]" using year_run_at_nl_bound [OF i] by auto
  with i show "contains_year_run_nl s"
    unfolding contains_year_run_nl_def list_ex_iff by blast
qed

lemma match_year_at_length: "match_year_at t = Some g \<Longrightarrow> length g = 4"
  by (cases t) (auto simp: match_year_at_Nil match_year_at_Cons split: if_splits)

lemma re_search_Some_at: "re_search m s = Some g \<Longrightarrow> \<exists>i. m (drop i s) = Some g"
proof (induction s)
  case Nil
  then have "m (drop 0 []) = Some g" by simp
  then show ?case by blast
next
  case (Cons c cs)
  show ?case
  proof (cases "m (c # cs)")
    case None
    with Cons.prems have "re_search m cs = Some g" by simp
    from Cons.IH [OF this] obtain i where "m (drop i cs) = Some g" ..
    then have "m (drop (Suc i) (c # cs)) = Some g" by simp
    then show ?thesis by blast
  next
    case (Some a)
    with Cons.prems have "m (drop 0 (c # cs)) = Some g" by simp
    then show ?thesis by blast
  qed
qed

lemma extract_year_of_search:
  "extract_year_from_filename s =
     (case re_search match_year_at s of None \<Rightarrow> Inr None
      | Some g \<Rightarrow> Inr (Some (decimal_value g)))"
proof (cases "re_search match_year_at s")
  case None
  then show ?thesis by (simp add: extract_year_from_filename_def)
next
  case (Some g)
  from re_search_Some_at [OF this] obtain i where "match_year_at (drop i s) = Some g" ..
  then have "length g = 4" by (rule match_year_at_length)
  then have "py_int g = Inr (decimal_value g)" by (simp add: py_int_within_limit)
  with Some show ?thesis by (simp add: extract_year_from_filename_def)
qed

text \<open>
  Claim C6 as it is written fails on a name that ends in a line feed: the four digits of
  \<^verbatim>\<open>tile_2021\<close> followed by a line feed are followed neither by a separator nor by
  the end of the string, and the year is returned all the same, because \<^verbatim>\<open>$\<close> also
  holds before a final line feed.
\<close>

theorem extract_year_not_none_counterexample:
  "\<not> contains_year_run (''tile_2021'' @ [CHR 0x0A]) \<and>
   extract_year_from_filename (''tile_2021'' @ [CHR 0x0A]) = Inr (Some 2021)"
  by code_simp

text \<open>
  Claim C6, amended. The run of four digits is bounded on the left by an underscore and on
  the right by a separator, by the end of the string, or by a single line feed that ends
  the string. When such a run \<open>ds\<close> stands at position \<open>i\<close> and none stands earlier, the
  function returns \<open>ds\<close> read as a decimal number; a name with such a run somewhere is
  always answered with a year, and a name with none always with \<open>None\<close>. The function
  raises on no name.
\<close>

theorem extract_year_spec:
  "(year_occurs_at_nl s i ds \<and> \<not> list_ex (year_run_at_nl s) [0..<i]
      \<longrightarrow> extract_year_from_filename s = Inr (Some (decimal_value ds))) \<and>
   (contains_year_run_nl s \<longrightarrow> (\<exists>v. extract_year_from_filename s = Inr (Some v))) \<and>
   (\<not> contains_year_run_nl s \<longrightarrow> extract_year_from_filename s = Inr None)"
proof (intro conjI impI)
  assume a: "year_occurs_at_nl s i ds \<and> \<not> list_ex (year_run_at_nl s) [0..<i]"
  then have m: "match_year_at (drop i s) = Some ds" by (simp add: year_occurs_match)
  have "\<forall>j<i. match_year_at (drop j s) = None"
    using a by (auto simp: list_ex_iff year_run_match)
  from re_search_first [OF m this] show "extract_year_from_filename s = Inr (Some (decimal_value ds))"
    by (simp add: extract_year_of_search)
next
  assume "contains_year_run_nl s"
  then obtain i where "match_year_at (drop i s) \<noteq> None"
    by (auto simp: contains_year_run_nl_iff year_run_match)
  then have "re_search match_year_at s \<noteq> None" by (auto simp: re_search_None)
  then show "\<exists>v. extract_year_from_filename s = Inr (Some v)"
    by (auto simp: extract_year_of_search)
next
  assume "\<not> contains_year_run_nl s"
  then have "\<forall>i. match_year_at (drop i s) = None"
    by (simp add: contains_year_run_nl_iff year_run_match)
  then have "re_search match_year_at s = None" by (simp add: re_search_None)
  then show "extract_year_from_filename s = Inr None"
    by (simp add: extract_year_of_search)
qed

theorem extract_year_spec_witness:
  "year_occurs_at_nl ''tile_12345_2021.tif'' 10 ''2021'' \<and>
   \<not> list_ex (year_run_at_nl ''tile_12345_2021.tif'') [0..<10] \<and>
   extract_year_from_filename ''tile_12345_2021.tif'' = Inr (Some 2021) \<and>
   contains_year_run_nl ''tile_12345_2021.tif'' \<and>
   \<not> contains_year_run_nl ''tile_20215.tif'' \<and>
   extract_year_from_filename ''tile_20215.tif'' = Inr None"
proof -
  have h1: "year_occurs_at_nl ''tile_12345_2021.tif'' 10 ''2021''" by code_simp
  have h2: "\<not> list_ex (year_run_at_nl ''tile_12345_2021.tif'') [0..<10]" by code_simp
  have h3: "contains_year_run_nl ''tile_12345_2021.tif''" by code_simp
  have h4: "\<not> contains_year_run_nl ''tile_20215.tif''" by code_simp
  have v: "decimal_value ''2021'' = 2021" by (simp add: decimal_value_def digit_value_def)
  show ?thesis
    using extract_year_spec [of "''tile_12345_2021.tif''" 10 "''2021''"]
      extract_year_spec [of "''tile_20215.tif''" 0 "''0''"] h1 h2 h3 h4 v
    by simp
qed

subsection \<open>The band loop\<close>

lemma update_band_meta_slice:
  "update_band_meta (band_slice mosaic i) crs m = final_meta mosaic crs m"
  by (simp add: update_band_meta_def final_meta_def band_slice_def)

lemma final_meta_idem: "final_meta mosaic crs (final_meta mosaic crs m) = final_meta mosaic crs m"
  by (rule ext) (simp add: final_meta_def)

lemma band_writes_Nil [simp]: "band_writes mosaic prof ls dir y r [] = []"
  by (simp add: band_writes_def)

lemma band_lines_Nil [simp]: "band_lines ls dir y r [] = []"
  by (simp add: band_lines_def)

lemma band_writes_Cons:
  "band_writes mosaic prof ls dir y r (i # idxs) =
     (case extract_doy_from_band_name (ls ! i) of
        Inl e \<Rightarrow> []
      | Inr None \<Rightarrow> []
      | Inr (Some doy) \<Rightarrow> [(os_path_join dir (band_file_name r y doy),
                            \<lparr>profile = prof, band1 = band_slice mosaic i\<rparr>)])
     @ band_writes mosaic prof ls dir y r idxs"
  by (simp add: band_writes_def)

lemma band_lines_Cons:
  "band_lines ls dir y r (i # idxs) =
     (case extract_doy_from_band_name (ls ! i) of
        Inl e \<Rightarrow> []
      | Inr None \<Rightarrow> [skipped_line i (ls ! i)]
      | Inr (Some doy) \<Rightarrow> [saved_line (os_path_join dir (band_file_name r y doy))])
     @ band_lines ls dir y r idxs"
  by (simp add: band_lines_def)

lemma bands_writable_Cons:
  "bands_writable env ls dir y r (i # idxs) \<longleftrightarrow>
     i < length ls \<and>
     (case extract_doy_from_band_name (ls ! i) of
        Inl e \<Rightarrow> False
      | Inr None \<Rightarrow> True
      | Inr (Some doy) \<Rightarrow> creatable env (os_path_join dir (band_file_name r y doy))) \<and>
     bands_writable env ls dir y r idxs"
  by (simp add: bands_writable_def)

lemma bands_loop_effect:
  "bands_writable env ls dir y r idxs \<Longrightarrow>
   bands_loop env mosaic a ls dir y r crs idxs st =
     (Inr (),
      st\<lparr>dicts := (if band_writes mosaic (final_meta mosaic crs (dicts st a)) ls dir y r idxs = []
                   then dicts st
                   else (dicts st)(a := final_meta mosaic crs (dicts st a))),
         written := written st @
                    band_writes mosaic (final_meta mosaic crs (dicts st a)) ls dir y r idxs,
         stdout := stdout st @ band_lines ls dir y r idxs\<rparr>)"
proof (induction idxs arbitrary: st)
  case Nil
  then show ?case by simp
next
  case (Cons i idxs)
  from Cons.prems have len: "i < length ls" and rest: "bands_writable env ls dir y r idxs"
    by (simp_all add: bands_writable_Cons)
  note IH = Cons.IH [OF rest]
  show ?case
  proof (cases "extract_doy_from_band_name (ls ! i)")
    case (Inl e)
    with Cons.prems show ?thesis by (simp add: bands_writable_Cons)
  next
    case (Inr parsed)
    show ?thesis
    proof (cases parsed)
      case None
      with Inr have n: "extract_doy_from_band_name (ls ! i) = Inr None" by simp
      show ?thesis
        using len n
        by (cases "band_writes mosaic (final_meta mosaic crs (dicts st a)) ls dir y r idxs = []")
          (simp_all add: IH band_writes_Cons band_lines_Cons)
    next
      case (Some doy)
      with Inr have s: "extract_doy_from_band_name (ls ! i) = Inr (Some doy)" by simp
      with Cons.prems have cr: "creatable env (os_path_join dir (band_file_name r y doy))"
        by (simp add: bands_writable_Cons)
      show ?thesis
        using len s cr
        by (cases "band_writes mosaic (final_meta mosaic crs (dicts st a)) ls dir y r idxs = []")
          (simp_all add: IH band_writes_Cons band_lines_Cons Let_def update_band_meta_slice
            final_meta_idem)
    qed
  qed
qed

lemma bands_loop_Inr_writable:
  "fst (bands_loop env mosaic a ls dir y r crs idxs st) = Inr () \<Longrightarrow>
   bands_writable env ls dir y r idxs"
proof (induction idxs arbitrary: st)
  case Nil
  then show ?case by (simp add: bands_writable_def)
next
  case (Cons i idxs)
  from Cons.prems have len: "i < length ls"
    by (simp split: if_splits)
  show ?case
  proof (cases "extract_doy_from_band_name (ls ! i)")
    case (Inl e)
    with Cons.prems len show ?thesis by simp
  next
    case (Inr parsed)
    show ?thesis
    proof (cases parsed)
      case None
      with Inr have n: "extract_doy_from_band_name (ls ! i) = Inr None" by simp
      from n Cons.prems len have "bands_writable env ls dir y r idxs"
        by (auto intro: Cons.IH)
      with len n show ?thesis by (simp add: bands_writable_Cons)
    next
      case (Some doy)
      with Inr have s: "extract_doy_from_band_name (ls ! i) = Inr (Some doy)" by simp
      from s Cons.prems len have cr: "creatable env (os_path_join dir (band_file_name r y doy))"
        by (simp add: Let_def split: if_splits)
      from s Cons.prems len cr have "bands_writable env ls dir y r idxs"
        by (auto simp: Let_def intro: Cons.IH)
      with len cr s show ?thesis by (simp add: bands_writable_Cons)
    qed
  qed
qed

lemma band_writes_member:
  "(p, f) \<in> set (band_writes mosaic prof ls dir y r idxs) \<Longrightarrow>
   profile f = prof \<and> rows (band1 f) = shape1 mosaic \<and> cols (band1 f) = shape2 mosaic"
  by (auto simp: band_writes_def band_slice_def split: option.splits sum.splits)

subsection \<open>Two bands with day-of-year labels\<close>

lemma upt_0_2: "[0..<2] = [0, Suc 0]"
  by (simp add: upt_rec)

lemma final_meta_keys:
  "final_meta mosaic crs m ''driver'' = Some (PStr ''GTiff'')"
  "final_meta mosaic crs m ''count'' = Some (PInt 1)"
  "final_meta mosaic crs m ''dtype'' = Some (PStr ''int16'')"
  "final_meta mosaic crs m ''crs'' = Some (PStr crs)"
  "final_meta mosaic crs m ''height'' = Some (PInt (int (shape1 mosaic)))"
  "final_meta mosaic crs m ''width'' = Some (PInt (int (shape2 mosaic)))"
  by (simp_all add: final_meta_def)

text \<open>
  Claim C3. A mosaic of two bands labelled \<^verbatim>\<open>Syn_VI_fitted001\<close> and
  \<^verbatim>\<open>Syn_VI_fitted045\<close>, region \<^verbatim>\<open>R\<close>, year 2020, both output paths creatable: the
  call returns normally and has written exactly two files, \<^verbatim>\<open>NDVI_R_2020_001.tif\<close> with
  band 0 and \<^verbatim>\<open>NDVI_R_2020_045.tif\<close> with band 1, in the output directory, each created
  with band count 1, sample type int16, driver GTiff and the coordinate reference system
  the caller passed.
\<close>

theorem two_labelled_bands_two_files:
  assumes "shape0 mosaic = 2"
    and "creatable env (os_path_join output_dir ''NDVI_R_2020_001.tif'')"
    and "creatable env (os_path_join output_dir ''NDVI_R_2020_045.tif'')"
  shows "fst (process_and_save_bands env mosaic out_meta
            [Some ''Syn_VI_fitted001'', Some ''Syn_VI_fitted045''] output_dir 2020 ''R'' crs st) = Inr () \<and>
         written (snd (process_and_save_bands env mosaic out_meta
            [Some ''Syn_VI_fitted001'', Some ''Syn_VI_fitted045''] output_dir 2020 ''R'' crs st)) =
           written st @
           [(os_path_join output_dir ''NDVI_R_2020_001.tif'',
             \<lparr>profile = final_meta mosaic crs (dicts st out_meta), band1 = band_slice mosaic 0\<rparr>),
            (os_path_join output_dir ''NDVI_R_2020_045.tif'',
             \<lparr>profile = final_meta mosaic crs (dicts st out_meta), band1 = band_slice mosaic 1\<rparr>)] \<and>
         final_meta mosaic crs (dicts st out_meta) ''count'' = Some (PInt 1) \<and>
         final_meta mosaic crs (dicts st out_meta) ''dtype'' = Some (PStr ''int16'') \<and>
         final_meta mosaic crs (dicts st out_meta) ''driver'' = Some (PStr ''GTiff'') \<and>
         final_meta mosaic crs (dicts st out_meta) ''crs'' = Some (PStr crs)"
proof -
  have d1: "extract_doy_from_band_name (Some ''Syn_VI_fitted001'') = Inr (Some 1)" by code_simp
  have d2: "extract_doy_from_band_name (Some ''Syn_VI_fitted045'') = Inr (Some 45)" by code_simp
  have n1: "band_file_name ''R'' 2020 1 = ''NDVI_R_2020_001.tif''" by code_simp
  have n2: "band_file_name ''R'' 2020 45 = ''NDVI_R_2020_045.tif''" by code_simp
  have w: "bands_writable env [Some ''Syn_VI_fitted001'', Some ''Syn_VI_fitted045''] output_dir 2020 ''R''
             [0, Suc 0]"
    using assms(2,3) by (simp add: bands_writable_def d1 d2 n1 n2)
  show ?thesis
    unfolding process_and_save_bands_def assms(1) upt_0_2 bands_loop_effect [OF w]
    by (simp add: band_writes_def d1 d2 n1 n2 final_meta_keys)
qed

theorem two_labelled_bands_two_files_witness:
  "shape0 example_mosaic = 2 \<and>
   creatable example_env (os_path_join ''out'' ''NDVI_R_2020_001.tif'') \<and>
   creatable example_env (os_path_join ''out'' ''NDVI_R_2020_045.tif'') \<and>
   fst (process_and_save_bands example_env example_mosaic 0
          [Some ''Syn_VI_fitted001'', Some ''Syn_VI_fitted045''] ''out'' 2020 ''R'' DEFAULT_CRS
          example_world) = Inr () \<and>
   map fst (written (snd (process_and_save_bands example_env example_mosaic 0
          [Some ''Syn_VI_fitted001'', Some ''Syn_VI_fitted045''] ''out'' 2020 ''R'' DEFAULT_CRS
          example_world))) = [''out/NDVI_R_2020_001.tif'', ''out/NDVI_R_2020_045.tif''] \<and>
   map (cells \<circ> band1 \<circ> snd) (written (snd (process_and_save_bands example_env example_mosaic 0
          [Some ''Syn_VI_fitted001'', Some ''Syn_VI_fitted045''] ''out'' 2020 ''R'' DEFAULT_CRS
          example_world))) = [[11, 12], [21, 22]] \<and>
   map (\<lambda>f. profile (snd f) ''crs'') (written (snd (process_and_save_bands example_env
          example_mosaic 0 [Some ''Syn_VI_fitted001'', Some ''Syn_VI_fitted045''] ''out'' 2020 ''R''
          DEFAULT_CRS example_world))) = [Some (PStr ''EPSG:4326''), Some (PStr ''EPSG:4326'')]"
proof -
  have h1: "shape0 example_mosaic = 2" by (simp add: example_mosaic_def)
  have h2: "creatable example_env (os_path_join ''out'' ''NDVI_R_2020_001.tif'')"
    by (simp add: example_env_def)
  have h3: "creatable example_env (os_path_join ''out'' ''NDVI_R_2020_045.tif'')"
    by (simp add: example_env_def)
  have s: "band_slice example_mosaic 0 = \<lparr>rows = 1, cols = 2, cells = [11, 12]\<rparr>"
    "band_slice example_mosaic (Suc 0) = \<lparr>rows = 1, cols = 2, cells = [21, 22]\<rparr>"
    by (simp_all add: band_slice_def example_mosaic_def)
  show ?thesis
    using two_labelled_bands_two_files [OF h1 h2 h3, of 0 DEFAULT_CRS example_world] h1 h2 h3
    by (simp add: example_world_def os_path_join_def s DEFAULT_CRS_def)
qed

subsection \<open>A band whose label does not parse\<close>







subsection \<open>The caller's profile dictionary\<close>

text \<open>
  Claim C9. When the call returns normally and has written at least one file, the
  dictionary at the address the caller passed holds driver GTiff, count 1, dtype int16,
  the coordinate reference system passed, and the height and width of the last band
  written; it is the very dictionary the last file was created with. No dictionary was
  allocated, no other dictionary changed, and the other keys of the caller's dictionary
  are as they were: the function works on the caller's object, not on a copy.
\<close>

theorem out_meta_mutated_in_place:
  assumes "process_and_save_bands env mosaic out_meta band_descriptions output_dir year
             region_name crs st = (Inr (), st')"
    and "written st' \<noteq> written st"
  shows "dicts st' out_meta ''driver'' = Some (PStr ''GTiff'') \<and>
         dicts st' out_meta ''count'' = Some (PInt 1) \<and>
         dicts st' out_meta ''dtype'' = Some (PStr ''int16'') \<and>
         dicts st' out_meta ''crs'' = Some (PStr crs) \<and>
         dicts st' out_meta ''height'' = Some (PInt (int (rows (band1 (snd (last (written st'))))))) \<and>
         dicts st' out_meta ''width'' = Some (PInt (int (cols (band1 (snd (last (written st'))))))) \<and>
         profile (snd (last (written st'))) = dicts st' out_meta \<and>
         dict_lim st' = dict_lim st \<and>
         (\<forall>a. a \<noteq> out_meta \<longrightarrow> dicts st' a = dicts st a) \<and>
         (\<forall>k. k \<notin> {''driver'', ''height'', ''width'', ''count'', ''dtype'', ''crs''} \<longrightarrow>
              dicts st' out_meta k = dicts st out_meta k)"
proof -
  let ?idxs = "[0..<shape0 mosaic]"
  let ?W = "band_writes mosaic (final_meta mosaic crs (dicts st out_meta)) band_descriptions
              output_dir year region_name ?idxs"
  from assms(1) have "fst (bands_loop env mosaic out_meta band_descriptions output_dir year
      region_name crs ?idxs st) = Inr ()"
    by (simp add: process_and_save_bands_def)
  then have w: "bands_writable env band_descriptions output_dir year region_name ?idxs"
    by (rule bands_loop_Inr_writable)
  from assms(1) have st': "st' = st\<lparr>dicts := (if ?W = [] then dicts st
                   else (dicts st)(out_meta := final_meta mosaic crs (dicts st out_meta))),
         written := written st @ ?W,
         stdout := stdout st @ band_lines band_descriptions output_dir year region_name ?idxs\<rparr>"
    unfolding process_and_save_bands_def bands_loop_effect [OF w] by simp
  from assms(2) st' have ne: "?W \<noteq> []" by auto
  then have lastW: "last (written st') = last ?W" using st' by simp
  obtain p f where pf: "last ?W = (p, f)" by (cases "last ?W")
  then have "(p, f) \<in> set ?W" using ne last_in_set by metis
  from band_writes_member [OF this] have f: "profile f = final_meta mosaic crs (dicts st out_meta)"
    "rows (band1 f) = shape1 mosaic" "cols (band1 f) = shape2 mosaic" by simp_all
  have d: "dicts st' = (dicts st)(out_meta := final_meta mosaic crs (dicts st out_meta))"
    using st' ne by simp
  have lim: "dict_lim st' = dict_lim st" using st' by simp
  have keep: "\<forall>k. k \<notin> {''driver'', ''height'', ''width'', ''count'', ''dtype'', ''crs''} \<longrightarrow>
      final_meta mosaic crs (dicts st out_meta) k = dicts st out_meta k"
    by (simp add: final_meta_def)
  show ?thesis
    unfolding lastW pf d using f lim keep by (simp add: final_meta_keys)
qed

theorem out_meta_mutated_in_place_witness:
  "process_and_save_bands example_env example_mosaic 0 [Some ''Syn_VI_fitted001'', Some ''band_2'']
     ''out'' 2020 ''R'' ''EPSG:4326'' example_world =
     (Inr (), snd (process_and_save_bands example_env example_mosaic 0
        [Some ''Syn_VI_fitted001'', Some ''band_2''] ''out'' 2020 ''R'' ''EPSG:4326'' example_world)) \<and>
   written (snd (process_and_save_bands example_env example_mosaic 0
        [Some ''Syn_VI_fitted001'', Some ''band_2''] ''out'' 2020 ''R'' ''EPSG:4326'' example_world))
     \<noteq> written example_world \<and>
   dicts example_world 0 ''driver'' = None \<and>
   dicts (snd (process_and_save_bands example_env example_mosaic 0
        [Some ''Syn_VI_fitted001'', Some ''band_2''] ''out'' 2020 ''R'' ''EPSG:4326'' example_world)) 0
     ''driver'' = Some (PStr ''GTiff'') \<and>
   dicts (snd (process_and_save_bands example_env example_mosaic 0
        [Some ''Syn_VI_fitted001'', Some ''band_2''] ''out'' 2020 ''R'' ''EPSG:4326'' example_world)) 0
     ''crs'' = Some (PStr ''EPSG:4326'')"
proof -
  let ?R = "process_and_save_bands example_env example_mosaic 0
        [Some ''Syn_VI_fitted001'', Some ''band_2''] ''out'' 2020 ''R'' ''EPSG:4326'' example_world"
  have d0: "extract_doy_from_band_name (Some ''Syn_VI_fitted001'') = Inr (Some 1)" by code_simp
  have d1: "extract_doy_from_band_name (Some ''band_2'') = Inr None" by code_simp
  have w: "bands_writable example_env [Some ''Syn_VI_fitted001'', Some ''band_2''] ''out'' 2020 ''R''
             [0, Suc 0]"
    by (simp add: bands_writable_def d0 d1 example_env_def)
  have sh: "shape0 example_mosaic = 2" by (simp add: example_mosaic_def)
  have h1: "?R = (Inr (), snd ?R)"
    unfolding process_and_save_bands_def sh upt_0_2 bands_loop_effect [OF w] by simp
  have h2: "written (snd ?R) \<noteq> written example_world"
    unfolding process_and_save_bands_def sh upt_0_2 bands_loop_effect [OF w]
    by (simp add: band_writes_def d0 d1 example_world_def)
  have h0: "dicts example_world 0 ''driver'' = None" by (simp add: example_world_def)
  show ?thesis
    using out_meta_mutated_in_place [OF h1 h2] h1 h2 h0 by simp
qed

subsection \<open>No range check on the day of year\<close>






subsection \<open>The tile merger\<close>

lemma open_loop_keeps_descriptions:
  "open_loop env fs srcs (Some d) st = (Inr (srcs', bd), st') \<Longrightarrow> bd = Some d"
  by (induction fs arbitrary: srcs st) (auto simp: Let_def split: option.splits)

lemma open_loop_first_descriptions:
  assumes "open_loop env (p # ps) srcs None st = (Inr (srcs', bd), st')"
  shows "tile_at env p \<noteq> None \<and> bd = map_option descriptions (tile_at env p)"
proof (cases "tile_at env p")
  case None
  with assms show ?thesis by simp
next
  case (Some t)
  with assms have "bd = Some (descriptions t)"
    by (auto simp: Let_def dest: open_loop_keeps_descriptions)
  with Some show ?thesis by simp
qed

lemma upt_add_Suc: "[l..<l + Suc n] = l # [Suc l..<Suc l + n]"
proof -
  have "l < l + Suc n" by simp
  from upt_conv_Cons [OF this] show ?thesis by (simp del: upt_Suc)
qed

lemma filter_removeAll:
  "filter (\<lambda>x. x \<notin> set hs) (removeAll h xs) = filter (\<lambda>x. x \<notin> set (h # hs)) xs"
  by (induction xs) auto

lemma open_loop_success:
  "list_all (\<lambda>q. tile_at env q \<noteq> None) fs \<Longrightarrow>
   open_loop env fs srcs bd st =
     (Inr (srcs @ zip [handle_lim st..<handle_lim st + length fs]
                    (map (\<lambda>q. the (tile_at env q)) fs),
           (case bd of
              Some d \<Rightarrow> Some d
            | None \<Rightarrow> (case fs of [] \<Rightarrow> None
                       | q # _ \<Rightarrow> Some (descriptions (the (tile_at env q)))))),
      st\<lparr>open_handles := open_handles st @ [handle_lim st..<handle_lim st + length fs],
         handle_lim := handle_lim st + length fs\<rparr>)"
proof (induction fs arbitrary: srcs bd st)
  case Nil
  then show ?case by (simp split: option.splits)
next
  case (Cons q fs)
  from Cons.prems obtain t where t: "tile_at env q = Some t" by auto
  from Cons.prems have rest: "list_all (\<lambda>q. tile_at env q \<noteq> None) fs" by simp
  have u: "[handle_lim st..<handle_lim st + length (q # fs)] =
      handle_lim st # [Suc (handle_lim st)..<Suc (handle_lim st) + length fs]"
    using upt_add_Suc [of "handle_lim st" "length fs"] by (simp del: upt_Suc)
  show ?case
    unfolding u by (simp add: t Let_def Cons.IH [OF rest] del: upt_Suc split: option.splits)
qed

lemma close_loop_effect:
  "close_loop hs st = st\<lparr>open_handles := filter (\<lambda>h. h \<notin> set hs) (open_handles st)\<rparr>"
proof (induction hs arbitrary: st)
  case Nil
  then show ?case by simp
next
  case (Cons h hs)
  show ?case using filter_removeAll [of hs h "open_handles st"] by (simp add: Cons.IH)
qed

lemma merge_success:
  assumes "list_all (\<lambda>q. tile_at env q \<noteq> None) (p # ps)"
    and "merge_result env (map (\<lambda>q. the (tile_at env q)) (p # ps)) = Some (mosaic, out_trans)"
  shows "merge_tiff_files env (p # ps) st =
           (Inr (mosaic, dict_lim st, Some (descriptions (the (tile_at env p)))),
            st\<lparr>open_handles :=
                 filter (\<lambda>h. h \<notin> set [handle_lim st..<handle_lim st + length (p # ps)])
                   (open_handles st @ [handle_lim st..<handle_lim st + length (p # ps)]),
               handle_lim := handle_lim st + length (p # ps),
               dicts := (dicts st)
                 (dict_lim st := (meta (the (tile_at env p)))(''transform'' \<mapsto> out_trans)),
               dict_lim := Suc (dict_lim st)\<rparr>)"
proof -
  define l where "l = handle_lim st"
  define n where "n = length (p # ps)"
  define hs where "hs = [l..<l + n]"
  define ts where "ts = map (\<lambda>q. the (tile_at env q)) (p # ps)"
  define srcs where "srcs = zip hs ts"
  have len: "length hs = length ts" by (simp add: hs_def ts_def n_def)
  have m: "map snd srcs = ts" unfolding srcs_def using len by (rule map_snd_zip)
  have f: "map fst srcs = hs" unfolding srcs_def using len by (rule map_fst_zip)
  have "hs = l # [Suc l..<Suc l + length ps]"
    unfolding hs_def n_def using upt_add_Suc [of l "length ps"] by (simp del: upt_Suc)
  then obtain tl where z: "srcs = (l, the (tile_at env p)) # tl"
    by (simp add: srcs_def ts_def)
  have o: "open_loop env (p # ps) [] None st =
     (Inr (srcs, Some (descriptions (the (tile_at env p)))),
      st\<lparr>open_handles := open_handles st @ hs, handle_lim := l + n\<rparr>)"
    using open_loop_success [OF assms(1), of "[]" None st]
    unfolding srcs_def hs_def ts_def l_def n_def by simp
  have mr: "merge_result env (map snd srcs) = Some (mosaic, out_trans)"
    unfolding m ts_def by (rule assms(2))
  have r: "merge_tiff_files env (p # ps) st =
      (Inr (mosaic, dict_lim st, Some (descriptions (the (tile_at env p)))),
       close_loop (map fst srcs)
         (st\<lparr>open_handles := open_handles st @ hs, handle_lim := l + n,
             dicts := (dicts st)(dict_lim st := (meta (the (tile_at env p)))(''transform'' \<mapsto> out_trans)),
             dict_lim := Suc (dict_lim st)\<rparr>))"
    unfolding merge_tiff_files_def o using mr z by (simp add: Let_def del: close_loop.simps)
  show ?thesis unfolding r close_loop_effect f by (simp add: hs_def l_def n_def del: upt_Suc)
qed

lemma merge_success_closes_handles:
  assumes "list_all (\<lambda>q. tile_at env q \<noteq> None) (p # ps)"
    and "merge_result env (map (\<lambda>q. the (tile_at env q)) (p # ps)) = Some (mosaic, out_trans)"
    and "list_all (\<lambda>h. h < handle_lim st) (open_handles st)"
  shows "open_handles (snd (merge_tiff_files env (p # ps) st)) = open_handles st"
proof -
  define hs where "hs = [handle_lim st..<handle_lim st + length (p # ps)]"
  have "\<forall>h\<in>set (open_handles st). h \<notin> set hs"
    using assms(3) by (auto simp: list_all_iff hs_def)
  then have "filter (\<lambda>h. h \<notin> set hs) (open_handles st) = open_handles st"
    by (simp add: filter_id_conv)
  moreover have "filter (\<lambda>h. h \<notin> set hs) hs = []"
    by (simp add: filter_empty_conv)
  ultimately have "filter (\<lambda>h. h \<notin> set hs) (open_handles st @ hs) = open_handles st"
    by simp
  then show ?thesis
    unfolding merge_success [OF assms(1,2)] hs_def by (simp del: upt_Suc)
qed

text \<open>
  Claim C4. On the empty list of tile paths the merger raises the input-validation error
  (Python's \<^verbatim>\<open>ValueError\<close>, with the message of the source) and the state is the one it
  was called in: no handle has been opened, nothing allocated, nothing written.
\<close>

theorem merge_empty_list_raises:
  "merge_tiff_files env [] st = (Inl (ValueError ''No TIFF files to merge.''), st)"
  by (simp add: merge_tiff_files_def)

text \<open>
  Claim C5. Whenever the merger returns for a non-empty list of tile paths, the first path
  could be opened and the band descriptions returned are those of the tile at the first
  path, whatever the later tiles carry. And it does return, with these descriptions, when
  every path can be opened and the merge of the opened tiles succeeds.
\<close>

theorem merge_labels_from_first_tile:
  "(merge_tiff_files env (p # ps) st = (Inr (mosaic, out_meta, band_descriptions), st') \<longrightarrow>
      tile_at env p \<noteq> None \<and> band_descriptions = map_option descriptions (tile_at env p)) \<and>
   (list_all (\<lambda>q. tile_at env q \<noteq> None) (p # ps) \<and>
    merge_result env (map (\<lambda>q. the (tile_at env q)) (p # ps)) = Some (m, tr) \<longrightarrow>
      fst (merge_tiff_files env (p # ps) st) =
        Inr (m, dict_lim st, map_option descriptions (tile_at env p)))"
proof (rule conjI; rule impI)
  assume r: "merge_tiff_files env (p # ps) st = (Inr (mosaic, out_meta, band_descriptions), st')"
  obtain res st1 where o: "open_loop env (p # ps) [] None st = (res, st1)"
    by (cases "open_loop env (p # ps) [] None st")
  show "tile_at env p \<noteq> None \<and> band_descriptions = map_option descriptions (tile_at env p)"
  proof (cases res)
    case (Inl e)
    with r o show ?thesis by (simp add: merge_tiff_files_def)
  next
    case (Inr x)
    obtain srcs bd where x: "x = (srcs, bd)" by (cases x)
    from r o Inr x have "bd = band_descriptions"
      by (auto simp: merge_tiff_files_def Let_def split: option.splits list.splits)
    moreover from o Inr x
    have "tile_at env p \<noteq> None \<and> bd = map_option descriptions (tile_at env p)"
      by (intro open_loop_first_descriptions) simp
    ultimately show ?thesis by simp
  qed
next
  assume a: "list_all (\<lambda>q. tile_at env q \<noteq> None) (p # ps) \<and>
    merge_result env (map (\<lambda>q. the (tile_at env q)) (p # ps)) = Some (m, tr)"
  then have "tile_at env p \<noteq> None" by simp
  then have d: "map_option descriptions (tile_at env p) =
      Some (descriptions (the (tile_at env p)))"
    by auto
  from a have "fst (merge_tiff_files env (p # ps) st) =
      Inr (m, dict_lim st, Some (descriptions (the (tile_at env p))))"
    by (simp add: merge_success [of env p ps m tr st])
  then show "fst (merge_tiff_files env (p # ps) st) =
      Inr (m, dict_lim st, map_option descriptions (tile_at env p))"
    unfolding d .
qed

theorem merge_labels_from_first_tile_witness:
  "list_all (\<lambda>q. tile_at example_env q \<noteq> None) [''b_2020.tif'', ''a_2020.tif''] \<and>
   merge_result example_env
     (map (\<lambda>q. the (tile_at example_env q)) [''b_2020.tif'', ''a_2020.tif'']) =
     Some (example_mosaic, PObj 7) \<and>
   merge_tiff_files example_env [''b_2020.tif'', ''a_2020.tif''] example_world =
     (Inr (example_mosaic, 1, Some [Some ''other1'', None]),
      snd (merge_tiff_files example_env [''b_2020.tif'', ''a_2020.tif''] example_world)) \<and>
   map_option descriptions (tile_at example_env ''b_2020.tif'') = Some [Some ''other1'', None] \<and>
   map_option descriptions (tile_at example_env ''a_2020.tif'') =
     Some [Some ''Syn_VI_fitted001'', Some ''Syn_VI_fitted045'']"
proof -
  have h1: "list_all (\<lambda>q. tile_at example_env q \<noteq> None) [''b_2020.tif'', ''a_2020.tif'']"
    by (simp add: example_env_def)
  have h2: "merge_result example_env
     (map (\<lambda>q. the (tile_at example_env q)) [''b_2020.tif'', ''a_2020.tif'']) =
     Some (example_mosaic, PObj 7)"
    by (simp add: example_env_def)
  have d: "map_option descriptions (tile_at example_env ''b_2020.tif'') = Some [Some ''other1'', None]"
    "map_option descriptions (tile_at example_env ''a_2020.tif'') =
       Some [Some ''Syn_VI_fitted001'', Some ''Syn_VI_fitted045'']"
    by (simp_all add: example_env_def example_tile_def)
  have l: "dict_lim example_world = 1" by (simp add: example_world_def)
  have "fst (merge_tiff_files example_env [''b_2020.tif'', ''a_2020.tif''] example_world) =
      Inr (example_mosaic, 1, Some [Some ''other1'', None])"
    using merge_labels_from_first_tile [of example_env "''b_2020.tif''" "[''a_2020.tif'']"
        example_world example_mosaic 1 "Some [Some ''other1'', None]"
        "snd (merge_tiff_files example_env [''b_2020.tif'', ''a_2020.tif''] example_world)"
        example_mosaic "PObj 7"] h1 h2
    unfolding d l by blast
  then have "merge_tiff_files example_env [''b_2020.tif'', ''a_2020.tif''] example_world =
     (Inr (example_mosaic, 1, Some [Some ''other1'', None]),
      snd (merge_tiff_files example_env [''b_2020.tif'', ''a_2020.tif''] example_world))"
    by (simp add: prod_eq_iff)
  with h1 h2 d show ?thesis by blast
qed

text \<open>
  Claim C1 does not hold on the code. In a world with no handle open, when the second
  path cannot be opened the call raises and the handle of the first tile is still open;
  when the merge of the opened tiles raises, the handle is still open as well. The handles
  are closed by the loop before the \<^verbatim>\<open>return\<close> only, which neither path reaches.
\<close>

theorem merge_failure_leaves_handles_open:
  "fst (merge_tiff_files example_env [''a_2020.tif'', ''c_2020.tif''] example_world) =
     Inl (RasterioIOError ''c_2020.tif'') \<and>
   open_handles (snd (merge_tiff_files example_env [''a_2020.tif'', ''c_2020.tif'']
                        example_world)) = [0] \<and>
   fst (merge_tiff_files example_env [''a_2020.tif''] example_world) = Inl MergeError \<and>
   open_handles (snd (merge_tiff_files example_env [''a_2020.tif''] example_world)) = [0] \<and>
   open_handles example_world = []"
  by (simp add: merge_tiff_files_def example_env_def example_world_def Let_def)

subsection \<open>Grouping by year\<close>

lemma map_of_setdefault_append:
  "map_of (setdefault_append d k v) =
     (map_of d)(k \<mapsto> (case map_of d k of None \<Rightarrow> [v] | Some vs \<Rightarrow> vs @ [v]))"
  by (induction d k v rule: setdefault_append.induct) (auto simp: fun_eq_iff)

lemma files_of_year_setdefault_append:
  "files_of_year (setdefault_append d k v) y =
     (if y = k then files_of_year d k @ [v] else files_of_year d y)"
  by (simp add: files_of_year_def map_of_setdefault_append split: option.splits)

lemma extract_year_never_raises: "extract_year_from_filename f \<noteq> Inl e"
  by (simp add: extract_year_of_search split: option.splits)

lemma group_loop_files_of_year:
  "\<exists>d'. group_loop region_path listing d = Inr d' \<and>
     (\<forall>y. files_of_year d' y =
        files_of_year d y @
        map (os_path_join region_path)
          (filter (\<lambda>f. endswith f ''.tif'' \<and> extract_year_from_filename f = Inr (Some y) \<and>
                       y \<noteq> 0)
             listing))"
proof (induction listing arbitrary: d)
  case Nil
  then show ?case by simp
next
  case (Cons f fs)
  show ?case
  proof (cases "endswith f ''.tif''")
    case False
    then show ?thesis using Cons.IH [of d] by simp
  next
    case True
    show ?thesis
    proof (cases "extract_year_from_filename f")
      case (Inl e)
      then show ?thesis using extract_year_never_raises [of f e] by simp
    next
      case (Inr parsed)
      show ?thesis
      proof (cases parsed)
        case None
        with Inr True show ?thesis using Cons.IH [of d] by simp
      next
        case (Some k)
        show ?thesis
        proof (cases "k = 0")
          case True
          with Some Inr \<open>endswith f ''.tif''\<close> show ?thesis using Cons.IH [of d] by auto
        next
          case False
          from Cons.IH [of "setdefault_append d k (os_path_join region_path f)"]
          obtain d' where d': "group_loop region_path fs
              (setdefault_append d k (os_path_join region_path f)) = Inr d'"
            and f': "\<forall>y. files_of_year d' y =
              files_of_year (setdefault_append d k (os_path_join region_path f)) y @
              map (os_path_join region_path)
                (filter (\<lambda>f. endswith f ''.tif'' \<and>
                             extract_year_from_filename f = Inr (Some y) \<and> y \<noteq> 0) fs)"
            by blast
          from d' False Some Inr \<open>endswith f ''.tif''\<close>
          have "group_loop region_path (f # fs) d = Inr d'" by simp
          moreover from f' False Some Inr \<open>endswith f ''.tif''\<close>
          have "\<forall>y. files_of_year d' y =
              files_of_year d y @
              map (os_path_join region_path)
                (filter (\<lambda>f. endswith f ''.tif'' \<and>
                             extract_year_from_filename f = Inr (Some y) \<and> y \<noteq> 0) (f # fs))"
            by (auto simp: files_of_year_setdefault_append)
          ultimately show ?thesis by blast
        qed
      qed
    qed
  qed
qed

lemma files_of_year_grouping:
  "\<exists>d. group_tiff_files_by_year region_path listing = Inr d \<and>
     (\<forall>y. files_of_year d y =
        map (os_path_join region_path)
          (filter (\<lambda>f. endswith f ''.tif'' \<and> extract_year_from_filename f = Inr (Some y) \<and>
                       y \<noteq> 0)
             listing))"
proof -
  have "files_of_year [] y = []" for y by (simp add: files_of_year_def)
  then show ?thesis
    using group_loop_files_of_year [of region_path listing "[]"]
    by (simp add: group_tiff_files_by_year_def)
qed

text \<open>
  Claim C7 does not hold on the code for the year zero. The name \<^verbatim>\<open>tile_0000.tif\<close> has
  the raster extension and the parser returns the year 0 for it, yet the test
  \<^verbatim>\<open>if year:\<close> takes 0 for false and the file is in no group.
\<close>

theorem year_zero_file_dropped:
  "endswith ''tile_0000.tif'' ''.tif'' \<and>
   extract_year_from_filename ''tile_0000.tif'' = Inr (Some 0) \<and>
   group_tiff_files_by_year ''/in/R'' [''tile_0000.tif'', ''tile_2021.tif''] =
     Inr [(2021, [''/in/R/tile_2021.tif''])]"
  by code_simp

end
